theory Spec2Isabelle
  imports Complex_Main "HOL-Library.Multiset"
begin

section \<open>Numbers of the analytics table\<close>

text \<open>
  The pages compute with pandas columns of double-precision floats. A cell is a finite
  number, one of the two infinities, or NaN (pandas' "missing"). The model keeps these
  four kinds apart and computes exactly on the finite ones: rounding is not modelled,
  and a finite result stays finite however large it is, where a pandas column would
  round it to an infinity.
  Division never raises on a pandas column: a zero divisor gives an infinity, or NaN for
  \<^verbatim>\<open>0/0\<close>. The model has one zero, the positive one that JSON's \<^verbatim>\<open>0\<close> decodes
  to, and \<open>fdiv\<close> gives the infinity of a zero divisor the sign of the numerator. A
  float column can also hold the negative zero (from the literal \<^verbatim>\<open>-0.0\<close>), and
  dividing by it gives the infinity of the opposite sign; so the theorems about all
  inputs state no sign for an infinity that comes from a zero divisor, and the examples
  evaluated at a zero divisor are at the positive zero.
\<close>

datatype fval = Fin real | PInf | NInf | NaN

fun fneg :: "fval \<Rightarrow> fval" where
  "fneg (Fin a) = Fin (- a)"
| "fneg PInf = NInf"
| "fneg NInf = PInf"
| "fneg NaN = NaN"

fun fadd :: "fval \<Rightarrow> fval \<Rightarrow> fval" where
  "fadd (Fin a) (Fin b) = Fin (a + b)"
| "fadd NaN _ = NaN"
| "fadd _ NaN = NaN"
| "fadd PInf NInf = NaN"
| "fadd NInf PInf = NaN"
| "fadd PInf _ = PInf"
| "fadd _ PInf = PInf"
| "fadd NInf _ = NInf"
| "fadd _ NInf = NInf"

definition fsub :: "fval \<Rightarrow> fval \<Rightarrow> fval" where
  "fsub a b = fadd a (fneg b)"

fun fmul :: "fval \<Rightarrow> fval \<Rightarrow> fval" where
  "fmul (Fin a) (Fin b) = Fin (a * b)"
| "fmul NaN _ = NaN"
| "fmul _ NaN = NaN"
| "fmul PInf (Fin b) = (if 0 < b then PInf else if b < 0 then NInf else NaN)"
| "fmul NInf (Fin b) = (if 0 < b then NInf else if b < 0 then PInf else NaN)"
| "fmul (Fin a) PInf = (if 0 < a then PInf else if a < 0 then NInf else NaN)"
| "fmul (Fin a) NInf = (if 0 < a then NInf else if a < 0 then PInf else NaN)"
| "fmul PInf PInf = PInf"
| "fmul NInf NInf = PInf"
| "fmul PInf NInf = NInf"
| "fmul NInf PInf = NInf"

fun fdiv :: "fval \<Rightarrow> fval \<Rightarrow> fval" where
  "fdiv (Fin a) (Fin b) =
     (if b \<noteq> 0 then Fin (a / b)
      else if 0 < a then PInf else if a < 0 then NInf else NaN)"
| "fdiv NaN _ = NaN"
| "fdiv _ NaN = NaN"
| "fdiv (Fin a) PInf = Fin 0"
| "fdiv (Fin a) NInf = Fin 0"
| "fdiv PInf (Fin b) = (if 0 \<le> b then PInf else NInf)"
| "fdiv NInf (Fin b) = (if 0 \<le> b then NInf else PInf)"
| "fdiv PInf PInf = NaN"
| "fdiv PInf NInf = NaN"
| "fdiv NInf PInf = NaN"
| "fdiv NInf NInf = NaN"

fun fsqrt :: "fval \<Rightarrow> fval" where
  "fsqrt (Fin a) = (if 0 \<le> a then Fin (sqrt a) else NaN)"
| "fsqrt PInf = PInf"
| "fsqrt NInf = NaN"
| "fsqrt NaN = NaN"

text \<open>Comparisons with NaN are false, as in Python and numpy.\<close>

fun fgt :: "fval \<Rightarrow> fval \<Rightarrow> bool" where
  "fgt (Fin a) (Fin b) = (b < a)"
| "fgt NaN _ = False"
| "fgt _ NaN = False"
| "fgt PInf PInf = False"
| "fgt PInf _ = True"
| "fgt _ PInf = False"
| "fgt NInf _ = False"
| "fgt _ NInf = True"

definition flt :: "fval \<Rightarrow> fval \<Rightarrow> bool" where
  "flt a b = fgt b a"

text \<open>\<^verbatim>\<open>pd.isna\<close>: only NaN is missing; an infinity is a value.\<close>

fun isna :: "fval \<Rightarrow> bool" where
  "isna NaN = True"
| "isna _ = False"

section \<open>Candles\<close>

text \<open>
  One row of \<^verbatim>\<open>data['data']['candles']\<close> after \<^verbatim>\<open>pd.to_datetime\<close> and
  \<^verbatim>\<open>pd.to_numeric\<close> have accepted it: the timestamp is an instant (nanoseconds
  since the epoch), the five numeric columns are finite numbers. Files that are missing,
  are not JSON or hold cells the two converters refuse end in the \<^verbatim>\<open>except\<close>
  branch of the loader before any of the code below runs; they are outside this type.
\<close>

record candle =
  timestamp :: int
  "open" :: real
  high :: real
  low :: real
  close :: real
  volume :: real
  oi :: int

subsection \<open>Column operations of pandas used by the loader\<close>

text \<open>
  \<^verbatim>\<open>Series.pct_change()\<close> is \<^verbatim>\<open>s / s.shift(1) - 1\<close>; the first cell has no
  predecessor and is NaN.
\<close>

fun pct_change_from :: "real \<Rightarrow> real list \<Rightarrow> fval list" where
  "pct_change_from p [] = []"
| "pct_change_from p (x # xs) =
     fsub (fdiv (Fin x) (Fin p)) (Fin 1) # pct_change_from x xs"

fun pct_change :: "real list \<Rightarrow> fval list" where
  "pct_change [] = []"
| "pct_change (x # xs) = NaN # pct_change_from x xs"

text \<open>\<^verbatim>\<open>Series.diff()\<close> is \<^verbatim>\<open>s - s.shift(1)\<close>; the first cell is NaN.\<close>

fun diff_from :: "real \<Rightarrow> real list \<Rightarrow> fval list" where
  "diff_from p [] = []"
| "diff_from p (x # xs) = Fin (x - p) # diff_from x xs"

fun diff :: "real list \<Rightarrow> fval list" where
  "diff [] = []"
| "diff (x # xs) = NaN # diff_from x xs"

text \<open>
  \<^verbatim>\<open>delta.where(delta > 0, 0)\<close> keeps a cell where the condition is true and writes
  0 elsewhere. The condition is false on NaN, so the NaN that heads \<^verbatim>\<open>delta\<close>
  becomes 0. \<^verbatim>\<open>-delta.where(delta < 0, 0)\<close> negates the column that keeps the
  negative cells.
\<close>

definition where_gt0 :: "fval \<Rightarrow> real" where
  "where_gt0 d = (case d of Fin x \<Rightarrow> (if fgt d (Fin 0) then x else 0) | _ \<Rightarrow> 0)"

definition neg_where_lt0 :: "fval \<Rightarrow> real" where
  "neg_where_lt0 d = (case d of Fin x \<Rightarrow> (if flt d (Fin 0) then - x else 0) | _ \<Rightarrow> 0)"

text \<open>
  \<^verbatim>\<open>s.rolling(window=w).mean()\<close> with the default \<^verbatim>\<open>min_periods = w\<close>. pandas
  slides the window over the column keeping the number of observations and their sum:
  at row \<open>i\<close> it removes the row that left the window (row \<open>i - w\<close>), adds row \<open>i\<close>, and
  writes \<^verbatim>\<open>sum_x / nobs\<close> when \<^verbatim>\<open>nobs >= minp\<close>, NaN otherwise. The columns
  rolled here hold no NaN, so every row counts as an observation.
\<close>

type_synonym mean_state = "nat \<times> real"

definition add_mean :: "real \<Rightarrow> mean_state \<Rightarrow> mean_state" where
  "add_mean v st = (Suc (fst st), snd st + v)"

definition remove_mean :: "real \<Rightarrow> mean_state \<Rightarrow> mean_state" where
  "remove_mean v st = (fst st - 1, snd st - v)"

definition calc_mean :: "nat \<Rightarrow> mean_state \<Rightarrow> fval" where
  "calc_mean minp st =
     (if minp \<le> fst st \<and> 0 < fst st then Fin (snd st / real (fst st)) else NaN)"

fun roll_mean_loop :: "nat \<Rightarrow> real list \<Rightarrow> nat \<Rightarrow> nat \<Rightarrow> mean_state \<Rightarrow> fval list" where
  "roll_mean_loop w vs 0 i st = []"
| "roll_mean_loop w vs (Suc k) i st =
     (let st1 = (if w \<le> i then remove_mean (vs ! (i - w)) st else st);
          st2 = add_mean (vs ! i) st1
      in calc_mean w st2 # roll_mean_loop w vs k (Suc i) st2)"

definition roll_mean :: "nat \<Rightarrow> real list \<Rightarrow> fval list" where
  "roll_mean w vs = roll_mean_loop w vs (length vs) 0 (0, 0)"

subsection \<open>The enriched table\<close>

record enriched = candle +
  daily_return :: fval
  volatility :: fval
  body_size :: real
  upper_shadow :: real
  lower_shadow :: real
  is_green :: bool
  price_range :: real
  mid_price :: real
  sma_5 :: fval
  sma_20 :: fval
  sma_50 :: fval
  rsi :: fval
  bb_middle :: fval

text \<open>
  The two local columns of the RSI computation, as functions of the close column, and
  the formula \<^verbatim>\<open>100 - (100 / (1 + rs))\<close> with \<^verbatim>\<open>rs = gain / loss\<close>. A loss mean of
  zero can be the negative zero in the float column (the losses are negated), which
  makes \<^verbatim>\<open>rs\<close> the negative instead of the positive infinity; \<^verbatim>\<open>100 / (1 + rs)\<close> is
  a zero for both, so the RSI is the same 100.
\<close>

definition gain :: "real list \<Rightarrow> fval list" where
  "gain closes = roll_mean 14 (map where_gt0 (diff closes))"

definition loss :: "real list \<Rightarrow> fval list" where
  "loss closes = roll_mean 14 (map neg_where_lt0 (diff closes))"

definition rsi_of :: "fval \<Rightarrow> fval \<Rightarrow> fval" where
  "rsi_of g l = (let rs = fdiv g l in fsub (Fin 100) (fdiv (Fin 100) (fadd (Fin 1) rs)))"

text \<open>
  \<^verbatim>\<open>load_candlestick_data\<close> from the decoded candle rows on: sort by timestamp, then
  one column after the other. The result is the DataFrame as the list of its rows;
  \<open>None\<close> is the \<^verbatim>\<open>return None\<close> of the \<^verbatim>\<open>except\<close> branch, which no statement
  below reaches on rows of type \<open>candle\<close>. \<^verbatim>\<open>sort_values\<close> leaves the order of rows
  with equal timestamps to numpy; the model keeps their input order. The \<^verbatim>\<open>date\<close>
  column and the two outer Bollinger bands (rolling standard deviation) are left out.
\<close>

definition load_candlestick_data :: "candle list \<Rightarrow> enriched list option" where
  "load_candlestick_data candles =
     (let df = sort_key timestamp candles;
          closes = map close df;
          daily_return_col = map (\<lambda>r. fmul r (Fin 100)) (pct_change closes);
          sma_5_col = roll_mean 5 closes;
          sma_20_col = roll_mean 20 closes;
          sma_50_col = roll_mean 50 closes;
          rsi_col = map2 rsi_of (gain closes) (loss closes)
      in Some (map (\<lambda>i. let c = df ! i in
           candle.extend c
             \<lparr> daily_return = daily_return_col ! i,
               volatility = fmul (fdiv (Fin (high c - low c)) (Fin (open c))) (Fin 100),
               body_size = \<bar>close c - open c\<bar>,
               upper_shadow = high c - max (open c) (close c),
               lower_shadow = min (open c) (close c) - low c,
               is_green = (open c < close c),
               price_range = high c - low c,
               mid_price = (high c + low c) / 2,
               sma_5 = sma_5_col ! i,
               sma_20 = sma_20_col ! i,
               sma_50 = sma_50_col ! i,
               rsi = rsi_col ! i,
               bb_middle = sma_20_col ! i \<rparr>)
         [0 ..< length df]))"

section \<open>Summary metrics\<close>

text \<open>
  \<^verbatim>\<open>Series.std()\<close> (ddof = 1) on a column from which \<^verbatim>\<open>dropna\<close> has removed
  the NaN cells: NaN when the count does not exceed ddof, else the square root of the
  sum of squared deviations from the mean over \<open>count - 1\<close>. An infinite cell is a value
  here and turns the result into NaN through the arithmetic.
\<close>

definition fsum :: "fval list \<Rightarrow> fval" where
  "fsum xs = foldl fadd (Fin 0) xs"

definition std :: "fval list \<Rightarrow> fval" where
  "std xs =
     (let count = length xs in
      if count \<le> 1 then NaN
      else
        let avg = fdiv (fsum xs) (Fin (real count));
            sqr = map (\<lambda>x. let d = fsub avg x in fmul d d) xs
        in fsqrt (fdiv (fsum sqr) (Fin (real (count - 1)))))"

definition dropna :: "fval list \<Rightarrow> fval list" where
  "dropna xs = filter (\<lambda>x. \<not> isna x) xs"

record metrics =
  current_price :: real
  price_change :: real
  price_change_pct :: real
  max_price :: real
  min_price :: real
  avg_volume :: real
  total_volume :: real
  volatility_std :: fval
  green_days :: nat
  red_days :: nat
  win_rate :: real
  recent_trend :: string
  total_days :: nat

text \<open>
  \<^verbatim>\<open>calculate_metrics(df)\<close>. The argument is what the loader returned, or a date
  range cut out of it. The result \<open>None\<close> is the empty dictionary \<^verbatim>\<open>{}\<close> of the
  guard in the first line; \<open>Some m\<close> is the dictionary of the thirteen metrics, whose
  key \<^verbatim>\<open>'volatility'\<close> is the field \<open>volatility_std\<close>. Past the guard the table has
  a row, so \<open>last\<close>, \<open>hd\<close> and the index \<open>length df - 2\<close> are in range where they are
  evaluated.
\<close>

definition calculate_metrics :: "enriched list option \<Rightarrow> metrics option" where
  "calculate_metrics arg =
     (case arg of
        None \<Rightarrow> None
      | Some df \<Rightarrow>
          if df = [] then None
          else
            let current_price_v = close (last df);
                previous_price = (if 1 < length df then close (df ! (length df - 2))
                                  else current_price_v);
                price_change_v = current_price_v - previous_price;
                price_change_pct_v = (if previous_price \<noteq> 0
                                      then (price_change_v / previous_price) * 100 else 0);
                returns = dropna (map daily_return df);
                volatility_v = (if 0 < length returns then std returns else Fin 0);
                green_days_v = sum_list (map (\<lambda>r. if is_green r then 1 else 0) df);
                red_days_v = length df - green_days_v;
                win_rate_v = (if 0 < length df
                              then (real green_days_v / real (length df)) * 100 else 0);
                recent_trend_v = (if fgt (Fin (close (last df))) (sma_5 (last df))
                                  then ''Bullish'' else ''Bearish'')
            in Some \<lparr> current_price = current_price_v,
                      price_change = price_change_v,
                      price_change_pct = price_change_pct_v,
                      max_price = fold max (map high (tl df)) (high (hd df)),
                      min_price = fold min (map low (tl df)) (low (hd df)),
                      avg_volume = sum_list (map volume df) / real (length df),
                      total_volume = sum_list (map volume df),
                      volatility_std = volatility_v,
                      green_days = green_days_v,
                      red_days = red_days_v,
                      win_rate = win_rate_v,
                      recent_trend = recent_trend_v,
                      total_days = length df \<rparr>)"

section \<open>Snapshot parser\<close>

text \<open>
  A decoded JSON value. An object is the list of its members in document order; Python's
  decoder keeps one value per key, so the keys of an object are distinct. A number
  literal without fraction and exponent decodes to an int of any size, every other one
  to a float; the literals \<^verbatim>\<open>NaN\<close> and \<^verbatim>\<open>Infinity\<close>, which the decoder accepts,
  are float cells too.
\<close>

datatype jval =
    JNull
  | JBool bool
  | JInt int
  | JFloat fval
  | JStr string
  | JArr "jval list"
  | JObj "(string \<times> jval) list"

text \<open>
  \<^verbatim>\<open>x.get(...)\<close> needs a dict: on any other value Python raises AttributeError.
  \<open>as_dict\<close> is that check, \<open>dget\<close> is \<^verbatim>\<open>dict.get(key, default)\<close>.
\<close>

fun as_dict :: "jval \<Rightarrow> (string \<times> jval) list option" where
  "as_dict (JObj kvs) = Some kvs"
| "as_dict _ = None"

definition dget :: "(string \<times> jval) list \<Rightarrow> string \<Rightarrow> jval \<Rightarrow> jval" where
  "dget kvs k d = (case map_of kvs k of Some v \<Rightarrow> v | None \<Rightarrow> d)"

text \<open>
  \<^verbatim>\<open>x != 0\<close>: a number differs from 0 by value (NaN and the infinities do),
  \<^verbatim>\<open>False\<close> equals 0 and \<^verbatim>\<open>True\<close> equals 1, every other value differs from 0.
\<close>

fun py_ne0 :: "jval \<Rightarrow> bool" where
  "py_ne0 (JInt n) = (n \<noteq> 0)"
| "py_ne0 (JFloat v) = (v \<noteq> Fin 0)"
| "py_ne0 (JBool b) = b"
| "py_ne0 _ = True"

text \<open>
  The operands of Python's arithmetic are ints (a bool counts as 0 or 1) and floats;
  any other operand raises TypeError (\<open>None\<close>).
\<close>

datatype py_number = PInt int | PFloat fval

fun py_num :: "jval \<Rightarrow> py_number option" where
  "py_num (JInt n) = Some (PInt n)"
| "py_num (JBool b) = Some (PInt (if b then 1 else 0))"
| "py_num (JFloat v) = Some (PFloat v)"
| "py_num _ = None"

text \<open>
  The range of a double. A magnitude of \<open>2 ^ 1024 - 2 ^ 970\<close> or more rounds to
  \<open>2 ^ 1024\<close>, which no double holds: float arithmetic gives an infinity there, and
  the conversion of an int to a float raises OverflowError. Below the limit the value is
  kept exactly (rounding is not modelled).
\<close>

definition dbl_limit :: real where
  "dbl_limit = 2 ^ 1024 - 2 ^ 970"

definition float_result :: "fval \<Rightarrow> fval" where
  "float_result v =
     (case v of
        Fin r \<Rightarrow> (if dbl_limit \<le> r then PInf else if r \<le> - dbl_limit then NInf else Fin r)
      | _ \<Rightarrow> v)"

definition int_to_float :: "int \<Rightarrow> fval option" where
  "int_to_float n = (if dbl_limit \<le> \<bar>real_of_int n\<bar> then None else Some (Fin (real_of_int n)))"

fun as_float :: "py_number \<Rightarrow> fval option" where
  "as_float (PInt n) = int_to_float n"
| "as_float (PFloat v) = Some v"

text \<open>
  \<^verbatim>\<open>a / b\<close>, true division; \<open>None\<close> is an exception. Of two ints Python takes the
  exact quotient: ZeroDivisionError on a zero divisor, OverflowError when the quotient
  is beyond the range of a double. Otherwise an int operand is converted to a float
  (OverflowError when it is too large) and the floats are divided: ZeroDivisionError on
  a zero divisor, and no other exception (a quotient beyond the range is an infinity).
\<close>

definition py_truediv :: "jval \<Rightarrow> jval \<Rightarrow> fval option" where
  "py_truediv a b =
     (case (py_num a, py_num b) of
        (Some (PInt x), Some (PInt y)) \<Rightarrow>
          (if y = 0 then None
           else if dbl_limit \<le> \<bar>real_of_int x / real_of_int y\<bar> then None
           else Some (Fin (real_of_int x / real_of_int y)))
      | (Some x, Some y) \<Rightarrow>
          (case (as_float x, as_float y) of
             (Some u, Some v) \<Rightarrow>
               (if v = Fin 0 then None else Some (float_result (fdiv u v)))
           | _ \<Rightarrow> None)
      | _ \<Rightarrow> None)"

text \<open>
  \<^verbatim>\<open>q * 100\<close> for a float \<open>q\<close>: the int 100 is converted and the floats are
  multiplied; no exception.
\<close>

definition times_100 :: "fval \<Rightarrow> fval" where
  "times_100 q = float_result (fmul q (Fin 100))"

text \<open>The body of the loop of \<^verbatim>\<open>parse_stock_data\<close>: one instrument.\<close>

definition parse_stock :: "string \<Rightarrow> jval \<Rightarrow> (string \<times> jval) list option" where
  "parse_stock instrument_key stock_info =
     (case as_dict stock_info of
        None \<Rightarrow> None
      | Some si \<Rightarrow>
         (case as_dict (dget si ''ohlc'' (JObj [])) of
            None \<Rightarrow> None
          | Some ohlc \<Rightarrow>
             (case (if py_ne0 (dget si ''last_price'' (JInt 0))
                    then map_option (\<lambda>q. JFloat (times_100 q))
                           (py_truediv (dget si ''net_change'' (JInt 0))
                                       (dget si ''last_price'' (JInt 1)))
                    else Some (JInt 0)) of
                None \<Rightarrow> None
              | Some pct \<Rightarrow>
                  Some [(''instrument_key'', JStr instrument_key),
                        (''symbol'', dget si ''symbol'' (JStr ''N/A'')),
                        (''last_price'', dget si ''last_price'' (JInt 0)),
                        (''open'', dget ohlc ''open'' (JInt 0)),
                        (''high'', dget ohlc ''high'' (JInt 0)),
                        (''low'', dget ohlc ''low'' (JInt 0)),
                        (''close'', dget ohlc ''close'' (JInt 0)),
                        (''volume'', dget si ''volume'' (JInt 0)),
                        (''average_price'', dget si ''average_price'' (JInt 0)),
                        (''net_change'', dget si ''net_change'' (JInt 0)),
                        (''net_change_percent'', pct),
                        (''upper_circuit'', dget si ''upper_circuit_limit'' (JInt 0)),
                        (''lower_circuit'', dget si ''lower_circuit_limit'' (JInt 0)),
                        (''timestamp'', dget si ''timestamp'' (JStr [])),
                        (''total_buy_quantity'', dget si ''total_buy_quantity'' (JInt 0)),
                        (''total_sell_quantity'', dget si ''total_sell_quantity'' (JInt 0))])))"

text \<open>
  \<^verbatim>\<open>parse_stock_data(json_data)\<close>. \<open>loads\<close> is \<^verbatim>\<open>json.loads\<close>, used when the
  argument is a string (\<open>None\<close> when it raises). The result \<open>None\<close> is the
  \<^verbatim>\<open>return None\<close> of the status check and of the \<^verbatim>\<open>except\<close> branch.
\<close>

definition parse_stock_data ::
    "(string \<Rightarrow> jval option) \<Rightarrow> jval \<Rightarrow> (string \<times> jval) list list option" where
  "parse_stock_data loads json_data =
     (case (case json_data of JStr s \<Rightarrow> loads s | _ \<Rightarrow> Some json_data) of
        None \<Rightarrow> None
      | Some data \<Rightarrow>
         (case as_dict data of
            None \<Rightarrow> None
          | Some d \<Rightarrow>
              if map_of d ''status'' \<noteq> Some (JStr ''success'') then None
              else
                (case as_dict (dget d ''data'' (JObj [])) of
                   None \<Rightarrow> None
                 | Some stock_data \<Rightarrow>
                     those (map (\<lambda>(instrument_key, stock_info).
                                   parse_stock instrument_key stock_info) stock_data))))"

section \<open>Auxiliary definitions for the proofs\<close>

text \<open>
  The sum the sliding window holds before row \<open>i\<close> is processed: the last \<open>min i w\<close>
  cells before \<open>i\<close>.
\<close>

definition window_sum :: "nat \<Rightarrow> real list \<Rightarrow> nat \<Rightarrow> real" where
  "window_sum w vs i = (\<Sum>j = i - min i w ..< i. vs ! j)"

text \<open>
  A feed row \<^verbatim>\<open>[ts, open, high, low, close, volume, 0]\<close>, to write example batches.
\<close>

definition bar :: "int \<Rightarrow> real \<Rightarrow> real \<Rightarrow> real \<Rightarrow> real \<Rightarrow> real \<Rightarrow> candle" where
  "bar t o' h l c v = \<lparr> timestamp = t, open = o', high = h, low = l, close = c, volume = v, oi = 0 \<rparr>"


text \<open>
  The snapshot documents the percentage claim is about, as the interface describes
  them: an instrument is an object whose \<^verbatim>\<open>last_price\<close> and \<^verbatim>\<open>net_change\<close> are
  finite numbers or absent and whose \<^verbatim>\<open>ohlc\<close> is an object or absent, with the two
  numbers and the percentage within the range of a double. \<open>jnum\<close> is the value of a
  finite number, \<open>num_field\<close> reads a numeric member, an absent one as 0;
  \<open>expected_percent\<close> is the percentage in the words of the specification:
  \<open>net_change / last_price \<times> 100\<close> (a float), and 0 (the int of the code's \<^verbatim>\<open>else\<close>)
  when \<open>last_price\<close> is 0.
\<close>

fun jnum :: "jval \<Rightarrow> real option" where
  "jnum (JInt n) = Some (real_of_int n)"
| "jnum (JFloat (Fin x)) = Some x"
| "jnum _ = None"

definition numeric_or_absent :: "(string \<times> jval) list \<Rightarrow> string \<Rightarrow> bool" where
  "numeric_or_absent si k =
     (case map_of si k of None \<Rightarrow> True | Some v \<Rightarrow> jnum v \<noteq> None)"

definition num_field :: "jval \<Rightarrow> string \<Rightarrow> real" where
  "num_field stock_info k =
     (case stock_info of
        JObj si \<Rightarrow>
          (case map_of si k of
             Some v \<Rightarrow> (case jnum v of Some x \<Rightarrow> x | None \<Rightarrow> 0)
           | None \<Rightarrow> 0)
      | _ \<Rightarrow> 0)"

definition in_double_range :: "jval \<Rightarrow> bool" where
  "in_double_range stock_info =
     (\<bar>num_field stock_info ''last_price''\<bar> < dbl_limit \<and>
      \<bar>num_field stock_info ''net_change''\<bar> < dbl_limit \<and>
      (if num_field stock_info ''last_price'' = 0 then True
       else \<bar>num_field stock_info ''net_change'' / num_field stock_info ''last_price'' * 100\<bar>
              < dbl_limit))"

definition well_typed_stock :: "jval \<Rightarrow> bool" where
  "well_typed_stock stock_info =
     (case stock_info of
        JObj si \<Rightarrow>
          numeric_or_absent si ''last_price'' \<and> numeric_or_absent si ''net_change'' \<and>
          (case map_of si ''ohlc'' of None \<Rightarrow> True | Some (JObj kvs) \<Rightarrow> True | Some _ \<Rightarrow> False) \<and>
          in_double_range stock_info
      | _ \<Rightarrow> False)"

definition expected_percent :: "jval \<Rightarrow> jval" where
  "expected_percent stock_info =
     (if num_field stock_info ''last_price'' \<noteq> 0
      then JFloat (Fin (num_field stock_info ''net_change'' / num_field stock_info ''last_price'' * 100))
      else JInt 0)"

section \<open>Properties of the column operations\<close>

lemma length_roll_mean_loop: "length (roll_mean_loop w vs k i st) = k"
  by (induction k arbitrary: i st) (simp_all add: Let_def)

lemma length_roll_mean: "length (roll_mean w vs) = length vs"
  by (simp add: roll_mean_def length_roll_mean_loop)

lemma window_step:
  assumes w: "0 < w"
  shows "add_mean (vs ! i) (if w \<le> i then remove_mean (vs ! (i - w)) (min i w, window_sum w vs i) else (min i w, window_sum w vs i))
     = (min (Suc i) w, window_sum w vs (Suc i))"
proof (cases "w \<le> i")
  case True
  define a where "a = i - w"
  have lt: "a < i" and s: "Suc i - w = Suc a" and le: "Suc a \<le> i"
    using True w by (simp_all add: a_def)
  have m: "min i w = w" "min (Suc i) w = w" using True by simp_all
  have e1: "(\<Sum>j = a ..< i. vs ! j) = vs ! a + (\<Sum>j = Suc a ..< i. vs ! j)"
    using lt by (rule sum.atLeast_Suc_lessThan)
  have e2: "(\<Sum>j = Suc a ..< Suc i. vs ! j) = (\<Sum>j = Suc a ..< i. vs ! j) + vs ! i"
    using le by simp
  have "add_mean (vs ! i) (remove_mean (vs ! a) (w, \<Sum>j = a ..< i. vs ! j))
          = (w, \<Sum>j = Suc a ..< Suc i. vs ! j)"
    using w by (simp only: e1 e2 add_mean_def remove_mean_def fst_conv snd_conv) simp
  then show ?thesis
    using True by (simp only: window_sum_def m s if_True a_def[symmetric] diff_diff_cancel)
next
  case False
  then show ?thesis
    by (simp add: add_mean_def window_sum_def min_def)
qed

lemma roll_mean_loop_nth:
  "0 < w \<Longrightarrow> j < k \<Longrightarrow>
   roll_mean_loop w vs k i (min i w, window_sum w vs i) ! j =
     calc_mean w (min (Suc (i + j)) w, window_sum w vs (Suc (i + j)))"
proof (induction k arbitrary: i j)
  case 0
  then show ?case by simp
next
  case (Suc k)
  note step = window_step[OF Suc.prems(1), of vs i]
  show ?case
  proof (cases j)
    case 0
    then show ?thesis by (simp only: roll_mean_loop.simps Let_def step) simp
  next
    case (Suc j')
    then have "j' < k" using Suc.prems(2) by simp
    from Suc.IH[OF Suc.prems(1) this, of "Suc i"]
    show ?thesis using Suc by (simp only: roll_mean_loop.simps Let_def step) simp
  qed
qed

lemma roll_mean_nth:
  assumes "0 < w" "i < length vs"
  shows "roll_mean w vs ! i =
     (if w \<le> Suc i then Fin ((\<Sum>j = Suc i - w ..< Suc i. vs ! j) / real w) else NaN)"
proof -
  have "roll_mean w vs ! i = calc_mean w (min (Suc i) w, window_sum w vs (Suc i))"
    unfolding roll_mean_def
    using roll_mean_loop_nth[OF assms(1) assms(2), of vs 0]
    by (simp add: window_sum_def)
  then show ?thesis using assms(1)
    by (auto simp: calc_mean_def window_sum_def min_def)
qed

lemma length_pct_change_from: "length (pct_change_from p xs) = length xs"
  by (induction xs arbitrary: p) simp_all

lemma length_pct_change: "length (pct_change xs) = length xs"
  by (cases xs) (simp_all add: length_pct_change_from)

lemma length_diff_from: "length (diff_from p xs) = length xs"
  by (induction xs arbitrary: p) simp_all

lemma length_diff: "length (diff xs) = length xs"
  by (cases xs) (simp_all add: length_diff_from)

lemma length_gain: "length (gain closes) = length closes"
  by (simp add: gain_def length_roll_mean length_diff)

lemma length_loss: "length (loss closes) = length closes"
  by (simp add: loss_def length_roll_mean length_diff)

lemma load_length:
  "load_candlestick_data candles = Some df \<Longrightarrow> length df = length candles"
  by (auto simp: load_candlestick_data_def Let_def)

lemma load_base:
  assumes "load_candlestick_data candles = Some df" "i < length df"
  shows "candle.truncate (df ! i) = sort_key timestamp candles ! i"
  using assms by (auto simp: load_candlestick_data_def Let_def candle.truncate_def candle.extend_def)

lemma load_closes:
  "load_candlestick_data candles = Some df \<Longrightarrow>
   map close df = map close (sort_key timestamp candles)"
  by (auto simp: load_candlestick_data_def Let_def candle.extend_def intro!: nth_equalityI)

lemma load_prices:
  assumes "load_candlestick_data candles = Some df" "i < length df"
  shows "timestamp (df ! i) = timestamp (sort_key timestamp candles ! i)"
    and "close (df ! i) = close (sort_key timestamp candles ! i)"
    and "open (df ! i) = open (sort_key timestamp candles ! i)"
    and "high (df ! i) = high (sort_key timestamp candles ! i)"
    and "low (df ! i) = low (sort_key timestamp candles ! i)"
  using assms by (auto simp: load_candlestick_data_def Let_def candle.extend_def)

lemma load_derived:
  assumes "load_candlestick_data candles = Some df" "i < length df"
  shows "is_green (df ! i) = (open (df ! i) < close (df ! i))"
    and "volatility (df ! i) = fmul (fdiv (Fin (high (df ! i) - low (df ! i))) (Fin (open (df ! i)))) (Fin 100)"
    and "daily_return (df ! i) = fmul (pct_change (map close df) ! i) (Fin 100)"
  using assms(2) load_length[OF assms(1)] unfolding load_closes[OF assms(1)] using assms 
  by (auto simp: load_candlestick_data_def Let_def candle.extend_def length_pct_change)

lemma load_indicators:
  assumes "load_candlestick_data candles = Some df" "i < length df"
  shows "sma_5 (df ! i) = roll_mean 5 (map close df) ! i"
    and "sma_20 (df ! i) = roll_mean 20 (map close df) ! i"
    and "sma_50 (df ! i) = roll_mean 50 (map close df) ! i"
    and "rsi (df ! i) = rsi_of (gain (map close df) ! i) (loss (map close df) ! i)"
  using assms(2) load_length[OF assms(1)] unfolding load_closes[OF assms(1)] using assms 
  by (auto simp: load_candlestick_data_def Let_def candle.extend_def length_gain length_loss)

lemma slice_sum:
  fixes xs :: "real list"
  assumes "a + w \<le> length xs"
  shows "sum_list (take w (drop a xs)) = (\<Sum>j = a ..< a + w. xs ! j)"
proof -
  have len: "length (take w (drop a xs)) = w" using assms by simp
  have "sum_list (take w (drop a xs)) = (\<Sum>j = 0 ..< w. take w (drop a xs) ! j)"
    using sum_list_sum_nth[of "take w (drop a xs)"] len by simp
  also have "\<dots> = (\<Sum>j = 0 ..< w. xs ! (a + j))"
    using assms by (intro sum.cong) simp_all
  also have "\<dots> = (\<Sum>j = a ..< a + w. xs ! j)"
    using sum.shift_bounds_nat_ivl[of "\<lambda>j. xs ! j" 0 a w] by (simp add: add.commute)
  finally show ?thesis .
qed

lemma roll_mean_slice:
  assumes "0 < w" "i < length vs"
  shows "roll_mean w vs ! i =
     (if w \<le> Suc i then Fin (sum_list (take w (drop (Suc i - w) vs)) / real w) else NaN)"
proof (cases "w \<le> Suc i")
  case True
  then have "Suc i - w + w \<le> length vs" using assms(2) by simp
  from slice_sum[OF this] True show ?thesis
    by (simp add: roll_mean_nth[OF assms])
next
  case False
  then show ?thesis by (simp add: roll_mean_nth[OF assms])
qed

section \<open>Normalizer\<close>

text \<open>
  Claim C1. On every batch of typed candle rows, in whatever order they are delivered,
  the loader returns a table; its rows are in ascending order of timestamp, there are
  as many as in the batch, and their candle parts are the rows of the batch, each as
  often as it occurs there (nothing dropped, nothing duplicated).
\<close>

theorem normalizer_sorted_same_length:
  "\<exists>df. load_candlestick_data candles = Some df \<and> sorted (map timestamp df) \<and>
     length df = length candles \<and> mset (map candle.truncate df) = mset candles"
proof -
  obtain df where df: "load_candlestick_data candles = Some df"
    by (simp add: load_candlestick_data_def Let_def)
  have len: "length df = length candles" by (rule load_length[OF df])
  have "map timestamp df = map timestamp (sort_key timestamp candles)"
    using len by (auto intro!: nth_equalityI simp: load_prices(1)[OF df])
  then have s: "sorted (map timestamp df)" by simp
  have "map candle.truncate df = sort_key timestamp candles"
    using len by (auto intro!: nth_equalityI simp: load_base[OF df])
  then have "mset (map candle.truncate df) = mset candles" by simp
  with df s len show ?thesis by blast
qed

section \<open>Moving averages\<close>

text \<open>
  Claim C2. In the table the loader returns, \<open>sma_N\<close> at row \<open>i\<close> (counted from 0) is
  the arithmetic mean of the \<open>N\<close> closes of rows \<open>i - N + 1\<close> to \<open>i\<close> when \<open>N - 1 \<le> i\<close>,
  and missing (NaN) on the earlier rows, for each of \<open>N = 5, 20, 50\<close>. The rolling mean
  of window 3 over the closes 10, 20, 30, 40, 50 is missing, missing, 20, 30, 40.
\<close>

theorem sma_trailing_mean:
  assumes "load_candlestick_data candles = Some df" "i < length df"
  shows "sma_5 (df ! i) =
           (if 4 \<le> i then Fin (sum_list (map close (take 5 (drop (i - 4) df))) / 5) else NaN) \<and>
         sma_20 (df ! i) =
           (if 19 \<le> i then Fin (sum_list (map close (take 20 (drop (i - 19) df))) / 20) else NaN) \<and>
         sma_50 (df ! i) =
           (if 49 \<le> i then Fin (sum_list (map close (take 50 (drop (i - 49) df))) / 50) else NaN) \<and>
         roll_mean 3 [10, 20, 30, 40, 50] = [NaN, NaN, Fin 20, Fin 30, Fin 40]"
proof -
  have i: "i < length (map close df)" using assms(2) by simp
  have ex: "roll_mean 3 [10, 20, 30, 40, 50] = [NaN, NaN, Fin 20, Fin 30, Fin 40]"
    by (simp add: roll_mean_def Let_def add_mean_def remove_mean_def calc_mean_def eval_nat_numeral)
  show ?thesis
    using roll_mean_slice[OF _ i, of 5] roll_mean_slice[OF _ i, of 20] roll_mean_slice[OF _ i, of 50] ex
    by (simp add: load_indicators[OF assms] take_map drop_map Suc_diff_le)
qed

theorem sma_trailing_mean_witness:
  "load_candlestick_data [bar 5 48 52 47 50 900, bar 4 38 42 37 40 800, bar 3 28 32 27 30 700,
       bar 2 18 22 17 20 600, bar 1 8 12 7 10 500] \<noteq> None \<and>
   (let df = the (load_candlestick_data [bar 5 48 52 47 50 900, bar 4 38 42 37 40 800,
       bar 3 28 32 27 30 700, bar 2 18 22 17 20 600, bar 1 8 12 7 10 500])
    in length df = 5 \<and> sma_5 (df ! 4) = Fin 30 \<and> sma_5 (df ! 3) = NaN \<and> sma_20 (df ! 4) = NaN)"
proof -
  define cs where "cs = [bar 5 48 52 47 50 900, bar 4 38 42 37 40 800, bar 3 28 32 27 30 700,
       bar 2 18 22 17 20 600, bar 1 8 12 7 10 500]"
  define df where "df = the (load_candlestick_data cs)"
  have h: "load_candlestick_data cs = Some df"
    by (simp add: df_def load_candlestick_data_def Let_def)
  have len: "length df = 5" using load_length[OF h] by (simp add: cs_def)
  have srt: "sort_key timestamp cs = rev cs"
    by (simp add: cs_def bar_def)
  have cl: "map close df = [10, 20, 30, 40, 50]"
    using load_closes[OF h] by (simp add: srt) (simp add: cs_def bar_def)
  have a: "sma_5 (df ! 4) = Fin 30"
    using sma_trailing_mean[OF h, of 4] len cl by (simp flip: take_map drop_map)
  have b: "sma_5 (df ! 3) = NaN \<and> sma_20 (df ! 4) = NaN"
    using sma_trailing_mean[OF h, of 3] sma_trailing_mean[OF h, of 4] len by simp
  show ?thesis using h len a b unfolding df_def cs_def Let_def by auto
qed

section \<open>Relative strength index\<close>

lemma where_gt0_nonneg: "0 \<le> where_gt0 d"
  by (cases d) (simp_all add: where_gt0_def)

lemma neg_where_lt0_nonneg: "0 \<le> neg_where_lt0 d"
  by (cases d) (simp_all add: neg_where_lt0_def flt_def)

lemma roll_mean_nonneg:
  assumes "0 < w" "i < length vs" "\<forall>v \<in> set vs. 0 \<le> v"
  shows "roll_mean w vs ! i = NaN \<and> Suc i < w \<or> (\<exists>r. roll_mean w vs ! i = Fin r \<and> 0 \<le> r \<and> w \<le> Suc i)"
proof (cases "w \<le> Suc i")
  case True
  have "0 \<le> (\<Sum>j = Suc i - w ..< Suc i. vs ! j)"
    using assms(2,3) by (intro sum_nonneg) simp
  then show ?thesis using True assms(1) by (simp add: roll_mean_nth[OF assms(1,2)])
next
  case False
  then show ?thesis by (simp add: roll_mean_nth[OF assms(1,2)])
qed

lemma gain_cases:
  assumes "i < length closes"
  shows "gain closes ! i = NaN \<and> i < 13 \<or> (\<exists>g. gain closes ! i = Fin g \<and> 0 \<le> g \<and> 13 \<le> i)"
  using roll_mean_nonneg[of 14 i "map where_gt0 (diff closes)"] assms
  by (auto simp: gain_def length_diff where_gt0_nonneg)

lemma loss_cases:
  assumes "i < length closes"
  shows "loss closes ! i = NaN \<and> i < 13 \<or> (\<exists>l. loss closes ! i = Fin l \<and> 0 \<le> l \<and> 13 \<le> i)"
  using roll_mean_nonneg[of 14 i "map neg_where_lt0 (diff closes)"] assms
  by (auto simp: loss_def length_diff neg_where_lt0_nonneg)

lemma rsi_of_NaN_gain: "rsi_of NaN l = NaN"
  by (simp add: rsi_of_def fsub_def)

lemma rsi_of_NaN_loss: "rsi_of g NaN = NaN"
  by (cases g) (simp_all add: rsi_of_def fsub_def)

lemma rsi_of_pos_loss:
  assumes "0 \<le> g" "0 < l"
  shows "\<exists>r. rsi_of (Fin g) (Fin l) = Fin r \<and> 0 \<le> r \<and> r \<le> 100"
proof -
  have p: "0 < 1 + g / l" using assms by (simp add: add_pos_nonneg)
  have q: "1 \<le> 1 + g / l" using assms by simp
  have "100 / (1 + g / l) \<le> 100 / 1" using q by (intro divide_left_mono) simp_all
  moreover have "0 \<le> 100 / (1 + g / l)" using p by simp
  moreover have "rsi_of (Fin g) (Fin l) = Fin (100 - 100 / (1 + g / l))"
    using assms p by (simp add: rsi_of_def fsub_def)
  ultimately show ?thesis by simp
qed

lemma rsi_of_zero_loss:
  "0 < g \<Longrightarrow> rsi_of (Fin g) (Fin 0) = Fin 100"
  "rsi_of (Fin 0) (Fin 0) = NaN"
  by (simp_all add: rsi_of_def fsub_def)

lemma rsi_of_range:
  assumes "0 \<le> g" "0 \<le> l"
  shows "rsi_of (Fin g) (Fin l) = NaN \<or> (\<exists>r. rsi_of (Fin g) (Fin l) = Fin r \<and> 0 \<le> r \<and> r \<le> 100)"
proof (cases "l = 0")
  case True
  then show ?thesis using assms(1) rsi_of_zero_loss(1)[of g] rsi_of_zero_loss(2)
    by (cases "g = 0") auto
next
  case False
  then show ?thesis using rsi_of_pos_loss[of g l] assms by simp
qed

text \<open>
  Claim C3. At every row of the loaded table the RSI is either missing or a number
  between 0 and 100. Where the rolling 14-row mean of the losses is 0 and that of the
  gains is positive, the RSI is exactly 100; where both means are 0 it is missing.
\<close>

theorem rsi_bounded:
  assumes "load_candlestick_data candles = Some df" "i < length df"
  shows "(rsi (df ! i) = NaN \<or> (\<exists>r. rsi (df ! i) = Fin r \<and> 0 \<le> r \<and> r \<le> 100)) \<and>
         (\<forall>g. loss (map close df) ! i = Fin 0 \<and> gain (map close df) ! i = Fin g \<and> 0 < g
               \<longrightarrow> rsi (df ! i) = Fin 100) \<and>
         (loss (map close df) ! i = Fin 0 \<and> gain (map close df) ! i = Fin 0
               \<longrightarrow> rsi (df ! i) = NaN)"
proof -
  have i: "i < length (map close df)" using assms(2) by simp
  have r: "rsi (df ! i) = rsi_of (gain (map close df) ! i) (loss (map close df) ! i)"
    by (rule load_indicators(4)[OF assms])
  have "rsi (df ! i) = NaN \<or> (\<exists>r. rsi (df ! i) = Fin r \<and> 0 \<le> r \<and> r \<le> 100)"
  proof (cases "i < 13")
    case True
    then have "gain (map close df) ! i = NaN" using gain_cases[OF i] by auto
    then show ?thesis unfolding r by (simp add: rsi_of_NaN_gain)
  next
    case False
    then obtain g l where gl: "gain (map close df) ! i = Fin g" "0 \<le> g"
        "loss (map close df) ! i = Fin l" "0 \<le> l"
      using gain_cases[OF i] loss_cases[OF i] by auto
    show ?thesis unfolding r gl(1) gl(3) by (rule rsi_of_range[OF gl(2) gl(4)])
  qed
  then show ?thesis unfolding r by (auto simp: rsi_of_zero_loss)
qed

lemma rsi_at:
  assumes "load_candlestick_data candles = Some df" "i < length df" "13 \<le> i"
  shows "rsi (df ! i) =
     rsi_of (Fin (sum_list (take 14 (drop (i - 13) (map where_gt0 (diff (map close df))))) / 14))
            (Fin (sum_list (take 14 (drop (i - 13) (map neg_where_lt0 (diff (map close df))))) / 14))"
proof -
  have i: "i < length (map where_gt0 (diff (map close df)))"
          "i < length (map neg_where_lt0 (diff (map close df)))"
    using assms(2) by (simp_all add: length_diff)
  have s: "Suc i - 14 = i - 13" by simp
  show ?thesis
    using roll_mean_slice[OF _ i(1), of 14] roll_mean_slice[OF _ i(2), of 14] assms(3)
    by (simp add: load_indicators(4)[OF assms(1,2)] gain_def loss_def s)
qed

theorem rsi_bounded_witness:
  "load_candlestick_data (map (\<lambda>n. bar (int n) (real n) (real n + 1) (real n) (real n + 1) 100) [0 ..< 15]) \<noteq> None \<and>
   (let df = the (load_candlestick_data (map (\<lambda>n. bar (int n) (real n) (real n + 1) (real n) (real n + 1) 100) [0 ..< 15]))
    in 14 < length df \<and> loss (map close df) ! 14 = Fin 0 \<and> gain (map close df) ! 14 = Fin 1 \<and>
       rsi (df ! 14) = Fin 100)"
proof -
  define cs where "cs = map (\<lambda>n. bar (int n) (real n) (real n + 1) (real n) (real n + 1) 100) [0 ..< 15]"
  define df where "df = the (load_candlestick_data cs)"
  have h: "load_candlestick_data cs = Some df"
    by (simp add: df_def load_candlestick_data_def Let_def)
  have len: "length df = 15" using load_length[OF h] by (simp add: cs_def)
  have i: "14 < length df" using len by simp
  have u: "[0 ..< 15] = [0,1,2,3,4,5,6,7,8,9,10,11,12,13,14::nat]"
    by (simp add: upt_rec)
  have cl: "map close df = [1,2,3,4,5,6,7,8,9,10,11,12,13,14,15]"
    unfolding load_closes[OF h] cs_def u by (simp add: bar_def)
  have g: "map where_gt0 (diff (map close df)) = [0,1,1,1,1,1,1,1,1,1,1,1,1,1,1]"
    unfolding cl by (simp add: where_gt0_def)
  have l: "map neg_where_lt0 (diff (map close df)) = [0,0,0,0,0,0,0,0,0,0,0,0,0,0,0]"
    unfolding cl by (simp add: neg_where_lt0_def flt_def)
  have i2: "14 < length (map where_gt0 (diff (map close df)))"
           "14 < length (map neg_where_lt0 (diff (map close df)))"
    unfolding g l by simp_all
  have gv: "gain (map close df) ! 14 = Fin 1"
    unfolding gain_def using roll_mean_slice[OF _ i2(1), of 14] unfolding g by simp
  have lv: "loss (map close df) ! 14 = Fin 0"
    unfolding loss_def using roll_mean_slice[OF _ i2(2), of 14] unfolding l by simp
  have "rsi (df ! 14) = Fin 100"
    using rsi_bounded[OF h i] gv lv by simp
  then show ?thesis using h i gv lv unfolding df_def cs_def Let_def by auto
qed

text \<open>
  Before row 13 the two rolling means, and with them the RSI, are missing.
\<close>

lemma rsi_missing_before_row_13:
  assumes "load_candlestick_data candles = Some df" "i < length df" "i < 13"
  shows "rsi (df ! i) = NaN"
proof -
  have "i < length (map close df)" using assms(2) by simp
  from gain_cases[OF this] assms(3) have "gain (map close df) ! i = NaN" by auto
  then show ?thesis by (simp add: load_indicators(4)[OF assms(1,2)] rsi_of_NaN_gain)
qed

text \<open>
  Claim C4 says that no row before the 15th (index 14) carries an RSI, since only then
  14 close-to-close changes exist. The code differs: \<^verbatim>\<open>where(delta > 0, 0)\<close> turns
  the missing change of row 0 into a change of 0, so the window of 14 is full at row 13
  with 13 real changes. On 14 bars whose closes rise from 1 to 14 the RSI of the 14th
  bar (index 13) is the number 100.
\<close>

theorem rsi_defined_on_fourteenth_bar:
  "load_candlestick_data (map (\<lambda>n. bar (int n) (real n) (real n + 1) (real n) (real n + 1) 100) [0 ..< 14]) \<noteq> None \<and>
   (let df = the (load_candlestick_data (map (\<lambda>n. bar (int n) (real n) (real n + 1) (real n) (real n + 1) 100) [0 ..< 14]))
    in length df = 14 \<and> rsi (df ! 13) = Fin 100)"
proof -
  define cs where "cs = map (\<lambda>n. bar (int n) (real n) (real n + 1) (real n) (real n + 1) 100) [0 ..< 14]"
  define df where "df = the (load_candlestick_data cs)"
  have h: "load_candlestick_data cs = Some df"
    by (simp add: df_def load_candlestick_data_def Let_def)
  have len: "length df = 14" using load_length[OF h] by (simp add: cs_def)
  have i: "13 < length df" using len by simp
  have u: "[0 ..< 14] = [0,1,2,3,4,5,6,7,8,9,10,11,12,13::nat]"
    by (simp add: upt_rec)
  have cl: "map close df = [1,2,3,4,5,6,7,8,9,10,11,12,13,14]"
    unfolding load_closes[OF h] cs_def u by (simp add: bar_def)
  have g: "map where_gt0 (diff (map close df)) = [0,1,1,1,1,1,1,1,1,1,1,1,1,1]"
    unfolding cl by (simp add: where_gt0_def)
  have l: "map neg_where_lt0 (diff (map close df)) = [0,0,0,0,0,0,0,0,0,0,0,0,0,0]"
    unfolding cl by (simp add: neg_where_lt0_def flt_def)
  have "rsi (df ! 13) = Fin 100"
    unfolding rsi_at[OF h i order_refl] g l by (simp add: rsi_of_def fsub_def)
  then show ?thesis using h len unfolding df_def cs_def Let_def by auto
qed

section \<open>Per-bar volatility\<close>

lemma load_total: "\<exists>df. load_candlestick_data candles = Some df"
  by (simp add: load_candlestick_data_def Let_def)




section \<open>Metrics summary\<close>

lemma calculate_metrics_nonempty:
  "df \<noteq> [] \<Longrightarrow> \<exists>m. calculate_metrics (Some df) = Some m"
  by (simp add: calculate_metrics_def Let_def)

lemma calculate_metrics_Some:
  assumes "calculate_metrics arg = Some m"
  shows "\<exists>df. arg = Some df \<and> df \<noteq> []"
  using assms by (auto simp: calculate_metrics_def split: option.splits if_splits)

lemma green_count: "sum_list (map (\<lambda>r. if P r then 1 else 0) xs) = length (filter P xs)"
  by (induction xs) simp_all

lemma calculate_metrics_days:
  assumes "calculate_metrics (Some df) = Some m"
  shows "green_days m = length (filter is_green df)"
    and "red_days m = length df - length (filter is_green df)"
    and "total_days m = length df"
    and "win_rate m = real (length (filter is_green df)) / real (length df) * 100"
  using assms calculate_metrics_Some[OF assms]
  by (auto simp: calculate_metrics_def Let_def green_count)

lemma calculate_metrics_trend:
  assumes "calculate_metrics (Some df) = Some m"
  shows "recent_trend m = (if fgt (Fin (close (last df))) (sma_5 (last df)) then ''Bullish'' else ''Bearish'')"
  using assms calculate_metrics_Some[OF assms]
  by (auto simp: calculate_metrics_def Let_def)

lemma calculate_metrics_volatility:
  assumes "calculate_metrics (Some df) = Some m"
  shows "volatility_std m = (if 0 < length (dropna (map daily_return df))
            then std (dropna (map daily_return df)) else Fin 0)"
  using assms calculate_metrics_Some[OF assms]
  by (auto simp: calculate_metrics_def Let_def)

lemma filter_complement_length:
  "length xs - length (filter P xs) = length (filter (\<lambda>x. \<not> P x) xs)"
  using sum_length_filter_compl[of P xs] by simp

text \<open>
  Claim C10. A bar whose close equals its open is not green in the loaded table. For any
  window of rows of that table, the green days of the summary are the bars with
  \<open>close > open\<close>, the red days are all the others, flat bars included, the two counts
  add up to the number of days, and the win rate is the share of bars with
  \<open>close > open\<close>.
\<close>

theorem flat_bar_counts_as_red:
  assumes "load_candlestick_data candles = Some df" "set window \<subseteq> set df"
          "calculate_metrics (Some window) = Some m"
  shows "(\<forall>r \<in> set df. close r = open r \<longrightarrow> \<not> is_green r) \<and>
         green_days m = length (filter (\<lambda>r. open r < close r) window) \<and>
         red_days m = length (filter (\<lambda>r. close r \<le> open r) window) \<and>
         green_days m + red_days m = total_days m \<and>
         win_rate m = real (length (filter (\<lambda>r. open r < close r) window)) / real (total_days m) * 100"
proof -
  have g: "is_green r = (open r < close r)" if "r \<in> set df" for r
    using that load_derived(1)[OF assms(1)] by (auto simp: in_set_conv_nth)
  have f: "filter is_green window = filter (\<lambda>r. open r < close r) window"
    using assms(2) g by (intro filter_cong) auto
  have f': "filter (\<lambda>r. \<not> is_green r) window = filter (\<lambda>r. close r \<le> open r) window"
    using assms(2) g by (intro filter_cong) auto
  note d = calculate_metrics_days[OF assms(3)]
  have "red_days m = length (filter (\<lambda>r. close r \<le> open r) window)"
    unfolding d(2) filter_complement_length f' ..
  moreover have "green_days m + red_days m = total_days m"
    unfolding d using length_filter_le[of is_green window] by simp
  ultimately show ?thesis using g d f by simp
qed

theorem flat_bar_counts_as_red_witness:
  "load_candlestick_data [bar 3 10 12 9 11 100, bar 2 10 11 9 10 100, bar 1 10 11 8 9 100] \<noteq> None \<and>
   (\<exists>m. calculate_metrics (load_candlestick_data
           [bar 3 10 12 9 11 100, bar 2 10 11 9 10 100, bar 1 10 11 8 9 100]) = Some m \<and>
        green_days m = 1 \<and> red_days m = 2 \<and> total_days m = 3)"
proof -
  define cs where "cs = [bar 3 10 12 9 11 100, bar 2 10 11 9 10 100, bar 1 10 11 8 9 100]"
  obtain df where h: "load_candlestick_data cs = Some df" using load_total by blast
  have len: "length df = 3" using load_length[OF h] by (simp add: cs_def)
  then have ne: "df \<noteq> []" by auto
  obtain m where m: "calculate_metrics (Some df) = Some m"
    using calculate_metrics_nonempty[OF ne] by blast
  have srt: "sort_key timestamp cs = rev cs" by (simp add: cs_def bar_def)
  have i: "0 < length df" "Suc 0 < length df" "2 < length df" using len by simp_all
  have df: "df = [df ! 0, df ! Suc 0, df ! 2]"
    using len by (auto simp: length_Suc_conv eval_nat_numeral)
  have oc: "open (df ! 0) = 10 \<and> close (df ! 0) = 9 \<and> open (df ! Suc 0) = 10 \<and> close (df ! Suc 0) = 10
            \<and> open (df ! 2) = 10 \<and> close (df ! 2) = 11"
    unfolding load_prices[OF h i(1)] load_prices[OF h i(2)] load_prices[OF h i(3)] srt
    by (simp add: cs_def bar_def)
  have a: "length (filter (\<lambda>r. open r < close r) df) = 1"
    by (subst df) (simp add: oc)
  have b: "length (filter (\<lambda>r. close r \<le> open r) df) = 2"
    by (subst df) (simp add: oc)
  have "green_days m = 1 \<and> red_days m = 2 \<and> total_days m = 3"
    using flat_bar_counts_as_red[OF h subset_refl m] a b by simp
  then show ?thesis using h m unfolding cs_def by auto
qed

lemma roll_mean_cases:
  assumes "0 < w" "i < length vs"
  shows "roll_mean w vs ! i = NaN \<or> (\<exists>s. roll_mean w vs ! i = Fin s)"
proof (cases "w \<le> Suc i")
  case True
  then have "roll_mean w vs ! i = Fin ((\<Sum>j = Suc i - w ..< Suc i. vs ! j) / real w)"
    by (simp only: roll_mean_nth[OF assms] if_True)
  then show ?thesis by blast
next
  case False
  then have "roll_mean w vs ! i = NaN"
    by (simp only: roll_mean_nth[OF assms] if_False)
  then show ?thesis by blast
qed

lemma load_sma_5_cases:
  assumes "load_candlestick_data candles = Some df" "r \<in> set df"
  shows "sma_5 r = NaN \<or> (\<exists>s. sma_5 r = Fin s)"
proof -
  from assms(2) obtain i where i: "i < length df" "r = df ! i"
    by (auto simp: in_set_conv_nth)
  have "i < length (map close df)" using i(1) by simp
  from roll_mean_cases[OF _ this, of 5] show ?thesis
    unfolding i(2) load_indicators(1)[OF assms(1) i(1)] by simp
qed

text \<open>
  Claim C6 says that with a missing \<open>sma_5\<close> on the last record the summary yields an
  explicit undefined or neutral trend. On a table of one bar the \<open>sma_5\<close> of the last
  record is missing and the trend is \<^verbatim>\<open>"Bearish"\<close>: the comparison with NaN is false
  and the code has no third state.
\<close>

theorem trend_missing_sma_counterexample:
  "sma_5 (last (the (load_candlestick_data [bar 1 10 12 9 11 100]))) = NaN \<and>
   map_option recent_trend (calculate_metrics (load_candlestick_data [bar 1 10 12 9 11 100]))
     = Some ''Bearish''"
proof -
  obtain df where h: "load_candlestick_data [bar 1 10 12 9 11 100] = Some df"
    using load_total by blast
  have len: "length df = 1" using load_length[OF h] by simp
  then have ne: "df \<noteq> []" by auto
  have l: "last df = df ! 0" using len ne by (simp add: last_conv_nth)
  have i: "0 < length df" using len by simp
  have "0 < length (map close df)" using i by simp
  from roll_mean_nth[OF _ this, of 5] have s: "sma_5 (last df) = NaN"
    unfolding l load_indicators(1)[OF h i] by simp
  obtain m where m: "calculate_metrics (Some df) = Some m"
    using calculate_metrics_nonempty[OF ne] by blast
  have "recent_trend m = ''Bearish''"
    unfolding calculate_metrics_trend[OF m] s by simp
  then show ?thesis using h m s by simp
qed

text \<open>
  Claim C6 as amended. For a non-empty window of rows of the loaded table the trend is
  \<^verbatim>\<open>"Bullish"\<close> exactly when the \<open>sma_5\<close> of the last record is a number and the last
  close is strictly greater than it; in every other case, a missing \<open>sma_5\<close> included,
  it is \<^verbatim>\<open>"Bearish"\<close>.
\<close>

theorem trend_bullish_iff:
  assumes "load_candlestick_data candles = Some df" "set window \<subseteq> set df"
          "calculate_metrics (Some window) = Some m"
  shows "(recent_trend m = ''Bullish'' \<longleftrightarrow>
            (\<exists>s. sma_5 (last window) = Fin s \<and> s < close (last window))) \<and>
         (recent_trend m \<noteq> ''Bullish'' \<longrightarrow> recent_trend m = ''Bearish'') \<and>
         (sma_5 (last window) = NaN \<longrightarrow> recent_trend m = ''Bearish'')"
proof -
  from calculate_metrics_Some[OF assms(3)] have "window \<noteq> []" by simp
  then have "last window \<in> set df" using assms(2) by auto
  from load_sma_5_cases[OF assms(1) this] show ?thesis
    unfolding calculate_metrics_trend[OF assms(3)] by auto
qed

theorem trend_bullish_iff_witness:
  "load_candlestick_data [bar 5 48 52 47 50 900, bar 4 38 42 37 40 800, bar 3 28 32 27 30 700,
       bar 2 18 22 17 20 600, bar 1 8 12 7 10 500] \<noteq> None \<and>
   map_option recent_trend (calculate_metrics (load_candlestick_data
      [bar 5 48 52 47 50 900, bar 4 38 42 37 40 800, bar 3 28 32 27 30 700,
       bar 2 18 22 17 20 600, bar 1 8 12 7 10 500])) = Some ''Bullish''"
proof -
  define cs where "cs = [bar 5 48 52 47 50 900, bar 4 38 42 37 40 800, bar 3 28 32 27 30 700,
       bar 2 18 22 17 20 600, bar 1 8 12 7 10 500]"
  obtain df where h: "load_candlestick_data cs = Some df" using load_total by blast
  have len: "length df = 5" using load_length[OF h] by (simp add: cs_def)
  then have ne: "df \<noteq> []" by auto
  obtain m where m: "calculate_metrics (Some df) = Some m"
    using calculate_metrics_nonempty[OF ne] by blast
  have l: "last df = df ! 4" using len ne by (simp add: last_conv_nth)
  have i: "4 < length df" using len by simp
  have srt: "sort_key timestamp cs = rev cs" by (simp add: cs_def bar_def)
  have cl: "map close df = [10, 20, 30, 40, 50]"
    using load_closes[OF h] by (simp add: srt) (simp add: cs_def bar_def)
  have c: "close (last df) = 50"
    unfolding l using arg_cong[OF cl, of "\<lambda>xs. xs ! 4"] i by simp
  have "4 < length (map close df)" using i by simp
  from roll_mean_slice[OF _ this, of 5] have s: "sma_5 (last df) = Fin 30"
    unfolding l load_indicators(1)[OF h i] cl by simp
  have "recent_trend m = ''Bullish''"
    using trend_bullish_iff[OF h subset_refl m] s c by simp
  then show ?thesis using h m unfolding cs_def by auto
qed

lemma std_single: "std [x] = NaN"
  by (simp add: std_def)

text \<open>
  Claim C5 says that the summary volatility is 0 whenever fewer than two daily returns
  are defined. The guard of the code is \<^verbatim>\<open>len(returns) > 0\<close>, so a window with exactly
  one defined return reaches \<^verbatim>\<open>returns.std()\<close>, which is NaN on a single value. On
  two bars with closes 100 and 110 the only defined return is 10 and the volatility of
  the summary is NaN, not 0.
\<close>

theorem volatility_of_one_return:
  "dropna (map daily_return (the (load_candlestick_data
      [bar 1 100 101 99 100 500, bar 2 100 111 99 110 500]))) = [Fin 10] \<and>
   map_option volatility_std (calculate_metrics (load_candlestick_data
      [bar 1 100 101 99 100 500, bar 2 100 111 99 110 500])) = Some NaN"
proof -
  define cs where "cs = [bar 1 100 101 99 100 500, bar 2 100 111 99 110 500]"
  obtain df where h: "load_candlestick_data cs = Some df" using load_total by blast
  have len: "length df = 2" using load_length[OF h] by (simp add: cs_def)
  then have ne: "df \<noteq> []" by auto
  obtain m where m: "calculate_metrics (Some df) = Some m"
    using calculate_metrics_nonempty[OF ne] by blast
  have i: "0 < length df" "Suc 0 < length df" using len by simp_all
  have df: "df = [df ! 0, df ! Suc 0]"
    using len by (auto simp: length_Suc_conv eval_nat_numeral)
  have cl: "map close df = [100, 110]"
    using load_closes[OF h] by (simp add: cs_def bar_def)
  have dr: "daily_return (df ! 0) = NaN \<and> daily_return (df ! Suc 0) = Fin 10"
    unfolding load_derived(3)[OF h i(1)] load_derived(3)[OF h i(2)] cl
    by (simp add: fsub_def)
  have r: "dropna (map daily_return df) = [Fin 10]"
    by (subst df) (simp add: dropna_def dr)
  have "volatility_std m = NaN"
    unfolding calculate_metrics_volatility[OF m] r by (simp add: std_single)
  then show ?thesis using h m r unfolding cs_def by auto
qed

text \<open>
  Claim C8 says that the loader rejects a batch of zero records. It does not: the
  statements of the loader run through on an empty table, and the loader returns it.
\<close>

theorem empty_batch_counterexample:
  "load_candlestick_data [] = Some []"
  by (simp add: load_candlestick_data_def)

text \<open>
  Claim C8 as amended. On zero records the loader returns the empty table without an
  error. The summary of an empty or absent table is the empty dictionary, so no win
  rate is computed on zero days: whenever the summary holds metrics, the window has at
  least one day and the win rate is \<open>green_days / total_days \<times> 100\<close>.
\<close>

theorem empty_window_has_no_metrics:
  "load_candlestick_data [] = Some [] \<and>
   calculate_metrics (Some []) = None \<and>
   calculate_metrics None = None \<and>
   (calculate_metrics arg = Some m \<longrightarrow>
      1 \<le> total_days m \<and> win_rate m = real (green_days m) / real (total_days m) * 100)"
proof -
  have "1 \<le> total_days m \<and> win_rate m = real (green_days m) / real (total_days m) * 100"
    if a: "calculate_metrics arg = Some m"
  proof -
    from calculate_metrics_Some[OF a] obtain df where df: "arg = Some df" "df \<noteq> []" by blast
    note d = calculate_metrics_days[OF a[unfolded df(1)]]
    have "0 < length df" using df(2) by simp
    then show ?thesis unfolding d by (simp add: Suc_le_eq)
  qed
  then show ?thesis
    by (simp add: load_candlestick_data_def calculate_metrics_def)
qed

theorem empty_window_has_no_metrics_witness:
  "\<exists>m. calculate_metrics (load_candlestick_data [bar 1 10 12 9 11 100, bar 2 11 12 9 10 100]) = Some m \<and>
       total_days m = 2 \<and> win_rate m = real (green_days m) / 2 * 100"
proof -
  obtain df where h: "load_candlestick_data [bar 1 10 12 9 11 100, bar 2 11 12 9 10 100] = Some df"
    using load_total by blast
  have len: "length df = 2" using load_length[OF h] by simp
  then have ne: "df \<noteq> []" by auto
  obtain m where m: "calculate_metrics (Some df) = Some m"
    using calculate_metrics_nonempty[OF ne] by blast
  have t: "total_days m = 2" using calculate_metrics_days(3)[OF m] len by simp
  from empty_window_has_no_metrics[of "Some df" m] m t
  have "win_rate m = real (green_days m) / 2 * 100" by simp
  then show ?thesis using h m t by auto
qed

section \<open>Snapshot parser: percentage change\<close>

lemma dbl_limit_large: "10 ^ 9 < dbl_limit"
proof -
  have "(2::real) ^ 1024 = 2 ^ 54 * 2 ^ 970" by (simp flip: power_add)
  then have "dbl_limit = (2 ^ 54 - 1) * 2 ^ 970" by (simp add: dbl_limit_def algebra_simps)
  moreover have "(10::real) ^ 9 < 2 ^ 54 - 1" by simp
  moreover have "(1::real) \<le> 2 ^ 970" by simp
  ultimately have "10 ^ 9 * 1 < (2 ^ 54 - 1) * (2::real) ^ 970"
    by (intro mult_less_le_imp_less) simp_all
  then show ?thesis using \<open>dbl_limit = (2 ^ 54 - 1) * 2 ^ 970\<close> by simp
qed

lemma float_result_in_range: "\<bar>r\<bar> < dbl_limit \<Longrightarrow> float_result (Fin r) = Fin r"
  by (auto simp: float_result_def)

lemma py_truediv_in_range:
  assumes "jnum a = Some x" "jnum b = Some y" "y \<noteq> 0"
      and "\<bar>x\<bar> < dbl_limit" "\<bar>y\<bar> < dbl_limit" "\<bar>x / y\<bar> < dbl_limit"
  shows "py_truediv a b = Some (Fin (x / y))"
proof -
  have r: "float_result (Fin (x / y)) = Fin (x / y)"
    using assms(6) by (rule float_result_in_range)
  from assms(1) consider (ai) n where "a = JInt n" "x = real_of_int n" | (af) "a = JFloat (Fin x)"
    by (auto elim: jnum.elims)
  then show ?thesis
  proof cases
    case ai
    from assms(2) consider (bi) m where "b = JInt m" "y = real_of_int m" | (bf) "b = JFloat (Fin y)"
      by (auto elim: jnum.elims)
    then show ?thesis
    proof cases
      case bi
      then show ?thesis using ai assms(3,6) by (simp add: py_truediv_def)
    next
      case bf
      then show ?thesis using ai assms(3,4) r by (simp add: py_truediv_def int_to_float_def)
    qed
  next
    case af
    from assms(2) consider (bi) m where "b = JInt m" "y = real_of_int m" | (bf) "b = JFloat (Fin y)"
      by (auto elim: jnum.elims)
    then show ?thesis
    proof cases
      case bi
      then show ?thesis using af assms(3,5) r by (simp add: py_truediv_def int_to_float_def)
    next
      case bf
      then show ?thesis using af assms(3) r by (simp add: py_truediv_def)
    qed
  qed
qed

lemma py_ne0_jnum: "jnum a = Some x \<Longrightarrow> py_ne0 a = (x \<noteq> 0)"
  by (auto elim: jnum.elims)

lemma times_100_in_range: "\<bar>q * 100\<bar> < dbl_limit \<Longrightarrow> times_100 (Fin q) = Fin (q * 100)"
  by (simp add: times_100_def float_result_in_range)

lemma num_field_get:
  assumes "numeric_or_absent si k" "jnum d = Some 0 \<or> (d = JInt 1 \<and> map_of si k \<noteq> None)"
  shows "jnum (dget si k d) = Some (if map_of si k = None then 0 else num_field (JObj si) k)"
  using assms
  by (auto simp: numeric_or_absent_def dget_def num_field_def split: option.splits)

lemma parse_stock_well_typed:
  assumes "well_typed_stock v"
  shows "\<exists>r. parse_stock k v = Some r \<and>
             map_of r ''net_change_percent'' = Some (expected_percent v)"
proof -
  from assms obtain si where v: "v = JObj si"
    by (cases v) (simp_all add: well_typed_stock_def)
  define lp where "lp = num_field v ''last_price''"
  define nc where "nc = num_field v ''net_change''"
  have t: "numeric_or_absent si ''last_price''" "numeric_or_absent si ''net_change''"
    and rg: "in_double_range v"
    and o: "\<exists>kvs. as_dict (dget si ''ohlc'' (JObj [])) = Some kvs"
    using assms unfolding v well_typed_stock_def
    by (auto simp: dget_def split: option.splits jval.splits)
  from o obtain ohlc where oh: "as_dict (dget si ''ohlc'' (JObj [])) = Some ohlc" by blast
  have absent: "lp = 0" if "map_of si ''last_price'' = None"
    using that by (simp add: lp_def v num_field_def)
  have g0: "jnum (dget si ''last_price'' (JInt 0)) = Some lp"
    using num_field_get[OF t(1), of "JInt 0"] absent by (auto simp: lp_def v)
  have n0: "jnum (dget si ''net_change'' (JInt 0)) = Some nc"
    using num_field_get[OF t(2), of "JInt 0"] by (auto simp: nc_def v num_field_def)
  have pct: "(if py_ne0 (dget si ''last_price'' (JInt 0))
              then map_option (\<lambda>q. JFloat (times_100 q))
                     (py_truediv (dget si ''net_change'' (JInt 0)) (dget si ''last_price'' (JInt 1)))
              else Some (JInt 0)) = Some (expected_percent v)"
  proof (cases "lp = 0")
    case True
    then show ?thesis using py_ne0_jnum[OF g0] by (simp add: expected_percent_def lp_def)
  next
    case False
    then have present: "map_of si ''last_price'' \<noteq> None" using absent by blast
    then have same: "dget si ''last_price'' (JInt 1) = dget si ''last_price'' (JInt 0)"
      by (auto simp: dget_def)
    have b: "\<bar>nc\<bar> < dbl_limit" "\<bar>lp\<bar> < dbl_limit" "\<bar>nc / lp * 100\<bar> < dbl_limit"
      using rg False by (simp_all add: in_double_range_def lp_def nc_def)
    define a where "a = \<bar>nc / lp\<bar>"
    have e: "\<bar>nc / lp * 100\<bar> = a * 100" unfolding a_def by (simp add: abs_mult)
    have "0 \<le> a" unfolding a_def by simp
    then have "a \<le> a * 100" by linarith
    then have "\<bar>nc / lp\<bar> \<le> \<bar>nc / lp * 100\<bar>" unfolding e unfolding a_def .
    then have q: "\<bar>nc / lp\<bar> < dbl_limit" using b(3) by simp
    have "py_truediv (dget si ''net_change'' (JInt 0)) (dget si ''last_price'' (JInt 1))
            = Some (Fin (nc / lp))"
      unfolding same by (rule py_truediv_in_range[OF n0 g0 False b(1) b(2) q])
    then show ?thesis
      using False py_ne0_jnum[OF g0] times_100_in_range[OF b(3)]
      by (simp add: expected_percent_def lp_def nc_def)
  qed
  show ?thesis
    unfolding v parse_stock_def using oh pct[unfolded v] by simp
qed

lemma those_map_Some:
  assumes "\<forall>x \<in> set xs. \<exists>y. f x = Some y \<and> P x y"
  shows "\<exists>ys. those (map f xs) = Some ys \<and> length ys = length xs \<and>
              (\<forall>i < length xs. P (xs ! i) (ys ! i))"
  using assms
proof (induction xs)
  case Nil
  then show ?case by simp
next
  case (Cons x xs)
  then obtain y where y: "f x = Some y" "P x y" by auto
  from Cons obtain ys where ys: "those (map f xs) = Some ys" "length ys = length xs"
      "\<forall>i < length xs. P (xs ! i) (ys ! i)" by auto
  have "those (map f (x # xs)) = Some (y # ys)" using y(1) ys(1) by simp
  moreover have "\<forall>i < length (x # xs). P ((x # xs) ! i) ((y # ys) ! i)"
    using y(2) ys(3) by (auto simp: nth_Cons')
  ultimately show ?case using ys(2) by auto
qed

text \<open>
  Outside the range of a double the parser fails: with the int \<open>10 ^ 400\<close> as
  \<^verbatim>\<open>net_change\<close> and 3 as \<^verbatim>\<open>last_price\<close> the division raises OverflowError and the
  \<^verbatim>\<open>except\<close> branch returns \<open>None\<close> for the whole document.
\<close>

lemma snapshot_overflow_refused:
  "parse_stock_data loads
     (JObj [(''status'', JStr ''success''),
            (''data'', JObj [(''NSE_EQ|A'', JObj [(''last_price'', JInt 3),
                                                   (''net_change'', JInt (10 ^ 400))])])]) = None"
proof -
  define A :: real where "A = 2 ^ 1024"
  define B :: real where "B = 2 ^ 970"
  define C :: real where "C = 10 ^ 400"
  have "(2::real) ^ 1026 \<le> 2 ^ 1200" by (rule power_increasing) simp_all
  also have "(2::real) ^ 1200 = 8 ^ 400" by (simp flip: power_mult)
  also have "(8::real) ^ 400 \<le> 10 ^ 400" by (rule power_mono) simp_all
  finally have "(2::real) ^ 1026 \<le> C" unfolding C_def .
  moreover have "(2::real) ^ 1026 = A * 4" unfolding A_def by (simp flip: power_add)
  ultimately have ac: "A * 4 \<le> C" by simp
  have pos: "0 \<le> B" "0 \<le> A" unfolding A_def B_def by simp_all
  have "(A - B) * 3 \<le> A * 3" using pos(1) by simp
  also have "A * 3 \<le> A * 4" using pos(2) by simp
  also note ac
  finally have "(A - B) * 3 \<le> C" .
  then have "dbl_limit * 3 \<le> 10 ^ 400" unfolding dbl_limit_def A_def B_def C_def .
  then have "dbl_limit \<le> \<bar>10 ^ 400 / (3::real)\<bar>" by simp
  then have "py_truediv (JInt (10 ^ 400)) (JInt 3) = None"
    by (simp add: py_truediv_def)
  then show ?thesis
    by (simp add: parse_stock_data_def parse_stock_def dget_def)
qed

text \<open>
  Claim C9. For a snapshot document whose status is \<^verbatim>\<open>"success"\<close> and whose
  instruments are objects with numeric (or absent) \<^verbatim>\<open>last_price\<close> and
  \<^verbatim>\<open>net_change\<close> within the range of a double, as is the percentage, the parser
  returns one record per instrument, in document order, and the
  \<^verbatim>\<open>net_change_percent\<close> of each is \<open>net_change / last_price \<times> 100\<close> when
  \<^verbatim>\<open>last_price\<close> is not 0, and 0 when it is 0 or absent. The document with the single
  instrument \<^verbatim>\<open>last_price = 0, net_change = 5\<close> parses to one record with
  \<^verbatim>\<open>net_change_percent = 0\<close>.
\<close>

theorem snapshot_net_change_percent:
  assumes "as_dict doc = Some d"
      and "map_of d ''status'' = Some (JStr ''success'')"
      and "map_of d ''data'' = Some (JObj stocks)"
      and "\<forall>kv \<in> set stocks. well_typed_stock (snd kv)"
  shows "(\<exists>rs. parse_stock_data loads doc = Some rs \<and> length rs = length stocks \<and>
            (\<forall>i < length stocks.
               map_of (rs ! i) ''net_change_percent'' =
                 Some (expected_percent (snd (stocks ! i))))) \<and>
         map_option (map (\<lambda>r. map_of r ''net_change_percent''))
           (parse_stock_data loads
              (JObj [(''status'', JStr ''success''),
                     (''data'', JObj [(''NSE_EQ|INE000A01001'',
                                       JObj [(''last_price'', JInt 0), (''net_change'', JInt 5)])])]))
           = Some [Some (JInt 0)]"
proof -
  from assms(1) have doc: "doc = JObj d" by (cases doc) simp_all
  have "\<forall>kv \<in> set stocks. \<exists>r. (\<lambda>(instrument_key, stock_info).
            parse_stock instrument_key stock_info) kv = Some r \<and>
            map_of r ''net_change_percent'' = Some (expected_percent (snd kv))"
  proof
    fix kv assume "kv \<in> set stocks"
    then have "well_typed_stock (snd kv)" using assms(4) by blast
    from parse_stock_well_typed[OF this, of "fst kv"] show "\<exists>r. (\<lambda>(instrument_key, stock_info).
            parse_stock instrument_key stock_info) kv = Some r \<and>
            map_of r ''net_change_percent'' = Some (expected_percent (snd kv))"
      by (simp add: case_prod_beta)
  qed
  from those_map_Some[OF this]
  obtain rs where rs: "those (map (\<lambda>(instrument_key, stock_info).
            parse_stock instrument_key stock_info) stocks) = Some rs"
      "length rs = length stocks"
      "\<forall>i < length stocks. map_of (rs ! i) ''net_change_percent'' =
          Some (expected_percent (snd (stocks ! i)))"
    by blast
  have "dget d ''data'' (JObj []) = JObj stocks" using assms(3) by (simp add: dget_def)
  then have "parse_stock_data loads doc = Some rs"
    unfolding doc parse_stock_data_def using assms(2) rs(1) by simp
  then have a: "\<exists>rs. parse_stock_data loads doc = Some rs \<and> length rs = length stocks \<and>
            (\<forall>i < length stocks.
               map_of (rs ! i) ''net_change_percent'' =
                 Some (expected_percent (snd (stocks ! i))))"
    using rs(2,3) by blast
  have b: "map_option (map (\<lambda>r. map_of r ''net_change_percent''))
           (parse_stock_data loads
              (JObj [(''status'', JStr ''success''),
                     (''data'', JObj [(''NSE_EQ|INE000A01001'',
                                       JObj [(''last_price'', JInt 0), (''net_change'', JInt 5)])])]))
           = Some [Some (JInt 0)]"
    by (simp add: parse_stock_data_def parse_stock_def dget_def)
  show ?thesis by (rule conjI[OF a b])
qed

theorem snapshot_net_change_percent_witness:
  "\<exists>rs. parse_stock_data (\<lambda>s. None)
      (JObj [(''status'', JStr ''success''),
             (''data'', JObj [(''NSE_EQ|A'', JObj [(''last_price'', JInt 200), (''net_change'', JFloat (Fin 5))]),
                              (''NSE_EQ|B'', JObj [(''net_change'', JInt 5)])])]) = Some rs \<and>
     length rs = 2 \<and>
     map_of (rs ! 0) ''net_change_percent'' = Some (JFloat (Fin (5 / 2))) \<and>
     map_of (rs ! 1) ''net_change_percent'' = Some (JInt 0)"
proof -
  define stocks where "stocks = [(''NSE_EQ|A'', JObj [(''last_price'', JInt 200), (''net_change'', JFloat (Fin 5))]),
                              (''NSE_EQ|B'', JObj [(''net_change'', JInt 5)])]"
  define d where "d = [(''status'', JStr ''success''), (''data'', JObj stocks)]"
  have h1: "as_dict (JObj d) = Some d" by simp
  have h2: "map_of d ''status'' = Some (JStr ''success'')" by (simp add: d_def)
  have h3: "map_of d ''data'' = Some (JObj stocks)" by (simp add: d_def)
  have big: "(200::real) < dbl_limit" "(5::real) < dbl_limit" "(5 / 2::real) < dbl_limit"
    using dbl_limit_large by simp_all
  have h4: "\<forall>kv \<in> set stocks. well_typed_stock (snd kv)"
    using big
    by (simp add: stocks_def well_typed_stock_def numeric_or_absent_def in_double_range_def
                  num_field_def)
  have e: "expected_percent (snd (stocks ! 0)) = JFloat (Fin (5 / 2))"
          "expected_percent (snd (stocks ! 1)) = JInt 0"
    by (simp_all add: stocks_def expected_percent_def num_field_def)
  from snapshot_net_change_percent[OF h1 h2 h3 h4, of "\<lambda>s. None"]
  obtain rs where rs: "parse_stock_data (\<lambda>s. None) (JObj d) = Some rs" "length rs = length stocks"
     "\<forall>i < length stocks. map_of (rs ! i) ''net_change_percent'' =
          Some (expected_percent (snd (stocks ! i)))"
    by blast
  have l: "length stocks = 2" by (simp add: stocks_def)
  have i: "0 < length stocks" "1 < length stocks" using l by simp_all
  have v: "map_of (rs ! 0) ''net_change_percent'' = Some (JFloat (Fin (5 / 2)))"
          "map_of (rs ! 1) ''net_change_percent'' = Some (JInt 0)"
    using rs(3)[rule_format, OF i(1)] rs(3)[rule_format, OF i(2)] unfolding e by simp_all
  have n: "length rs = 2" using rs(2) l by simp
  show ?thesis
    by (rule exI[of _ rs]) (intro conjI rs(1)[unfolded d_def stocks_def] n v)
qed

end
